theory Spec2Isabelle
  imports Main
begin

section \<open>The overview report: data model\<close>

text \<open>
  The development follows \<^verbatim>\<open>webapp/src/reports/OverviewReport.tsx\<close>. The component keeps
  three pieces of mutable state in its closure (the \<^verbatim>\<open>loading\<close> signal, the chart object
  \<^verbatim>\<open>histogram\<close> and the object \<^verbatim>\<open>hiddenTypes\<close>), reads the ambient signal
  \<^verbatim>\<open>TIME_RANGE\<close>, and talks to the server through two promise-returning calls,
  \<^verbatim>\<open>API.groupBy\<close> and \<^verbatim>\<open>API.histogramTime\<close>. JavaScript runs every callback to
  completion on one thread, so the component is a state machine whose transitions are the
  calls of \<^verbatim>\<open>refresh\<close>, the settlements of the promises and the legend clicks.
\<close>

text \<open>A promise settles exactly once: fulfilled with a value or rejected with a reason.\<close>

datatype 'a settled = Fulfilled 'a | Rejected string

text \<open>One element of \<^verbatim>\<open>response.rows\<close> of the group-by call; the code reads only \<^verbatim>\<open>key\<close>.\<close>

record group_row =
  key :: string
  row_count :: int

text \<open>One element of \<^verbatim>\<open>response.data\<close> of the histogram call.\<close>

record histogram_point =
  time :: int
  count :: int

text \<open>
  What reading \<^verbatim>\<open>hiddenTypes[eventType]\<close> can give. \<^verbatim>\<open>hiddenTypes\<close> is an object literal
  (line 18), so its prototype is \<^verbatim>\<open>Object.prototype\<close>: a key it does not hold itself reads
  \<^verbatim>\<open>undefined\<close>, unless it is the name of a member of \<^verbatim>\<open>Object.prototype\<close>, which reads
  that member (a function, or for \<^verbatim>\<open>__proto__\<close> the prototype object).
\<close>

datatype js_value = Undefined | Boolean bool | Inherited

text \<open>JavaScript's truthiness: \<^verbatim>\<open>undefined\<close> and \<^verbatim>\<open>false\<close> are falsy, functions and objects truthy.\<close>

fun truthy :: "js_value \<Rightarrow> bool" where
  "truthy Undefined = False"
| "truthy (Boolean b) = b"
| "truthy Inherited = True"

text \<open>
  A dataset as pushed at lines 76-81; \<^verbatim>\<open>hidden\<close> holds what \<^verbatim>\<open>hiddenTypes[eventType]\<close>
  read. \<open>meta_hidden\<close> is the flag the chart library keeps beside each dataset:
  \<^verbatim>\<open>hide(i)\<close> and \<^verbatim>\<open>show(i)\<close> set it, and a new dataset has none.
\<close>

record dataset =
  data :: "int list"
  label :: string
  pointRadius :: nat
  hidden :: js_value
  meta_hidden :: "bool option"

text \<open>The part of the chart configuration the component writes: \<^verbatim>\<open>data.labels\<close> and \<^verbatim>\<open>data.datasets\<close>.\<close>

record chart =
  labels :: "int list"
  datasets :: "dataset list"

text \<open>The two requests, with the fields the code sends.\<close>

datatype api_call =
    GroupBy (gb_field: string) (gb_size: nat) (gb_time_range: string)
  | HistogramTime (ht_time_range: string) (ht_interval: string)
      (ht_event_type: string) (ht_query_string: string)

text \<open>
  What the callbacks attached to a call have captured. The group-by callbacks capture the
  local \<^verbatim>\<open>interval\<close>. The histogram callbacks capture the array \<^verbatim>\<open>labels\<close> created by the
  group-by callback that issued them (named here by its index in \<open>closures\<close>) and the loop
  variable \<^verbatim>\<open>e\<close>, of which they read \<^verbatim>\<open>e.key\<close> (also bound to \<^verbatim>\<open>eventType\<close>).
\<close>

datatype continuation = OnGroupBy string | OnHistogramTime nat string

text \<open>
  The state. \<open>hiddenTypes\<close> holds the properties the object has of its own. \<open>closures\<close> holds the \<^verbatim>\<open>labels\<close> array of every group-by callback that has
  run; \<open>issued\<close> is the history of calls made, a call's identifier being its position;
  \<open>pending\<close> lists the calls that have not settled; \<open>console\<close> is what
  \<^verbatim>\<open>console.log\<close> has printed.

  The arrays \<^verbatim>\<open>labels\<close> and \<^verbatim>\<open>histogram.data.labels\<close> may be one object (line 68). The
  array is only ever extended while it is empty, in the block that ends with that very
  assignment, so the chart never holds an array that changes afterwards without being
  assigned again: copying the value at the assignment loses nothing.
\<close>

record state =
  loading :: int
  histogram :: "chart option"
  hiddenTypes :: "string \<rightharpoonup> bool"
  TIME_RANGE :: string
  closures :: "int list list"
  issued :: "(api_call \<times> continuation) list"
  pending :: "nat list"
  console :: "string list"

text \<open>
  The names of the members of \<^verbatim>\<open>Object.prototype\<close>, which every object literal inherits.
\<close>

definition Object_prototype_names :: "string list" where
  "Object_prototype_names =
     [''constructor'', ''__defineGetter__'', ''__defineSetter__'', ''hasOwnProperty'',
      ''__lookupGetter__'', ''__lookupSetter__'', ''isPrototypeOf'',
      ''propertyIsEnumerable'', ''toString'', ''valueOf'', ''__proto__'',
      ''toLocaleString'']"

text \<open>
  Reading \<^verbatim>\<open>hiddenTypes[k]\<close> (line 75). \<^verbatim>\<open>__proto__\<close> is an accessor of the prototype and
  never a property of the object itself; any other key reads the object's own property
  when there is one, the inherited member when the key names one, and \<^verbatim>\<open>undefined\<close>
  otherwise.
\<close>

definition hiddenTypes_get :: "(string \<rightharpoonup> bool) \<Rightarrow> string \<Rightarrow> js_value" where
  "hiddenTypes_get own k =
     (if k = ''__proto__'' then Inherited
      else case own k of
        Some b \<Rightarrow> Boolean b
      | None \<Rightarrow> if k \<in> set Object_prototype_names then Inherited else Undefined)"

text \<open>
  Writing \<^verbatim>\<open>hiddenTypes[k] = b\<close> (lines 124 and 128). The assignment makes or changes a
  property of the object itself, except under \<^verbatim>\<open>__proto__\<close>: there it calls the setter of
  the prototype, which ignores a value that is neither an object nor \<^verbatim>\<open>null\<close>.
\<close>

definition hiddenTypes_set :: "(string \<rightharpoonup> bool) \<Rightarrow> string \<Rightarrow> bool \<Rightarrow> (string \<rightharpoonup> bool)" where
  "hiddenTypes_set own k b = (if k = ''__proto__'' then own else own(k \<mapsto> b))"

text \<open>Lines 16-22: the state when the component is created, under a given time range.\<close>

definition init :: "string \<Rightarrow> state" where
  "init tr =
     \<lparr>loading = 0, histogram = None,
      hiddenTypes = [''anomaly'' \<mapsto> True, ''stats'' \<mapsto> True, ''netflow'' \<mapsto> True],
      TIME_RANGE = tr, closures = [], issued = [], pending = [], console = []\<rparr>"

section \<open>The operations\<close>

definition setLoading :: "(int \<Rightarrow> int) \<Rightarrow> state \<Rightarrow> state" where
  "setLoading f s = s\<lparr>loading := f (loading s)\<rparr>"

text \<open>Lines 95-160: the previous chart, if any, is destroyed and a new one made, empty.\<close>

definition buildChart :: "state \<Rightarrow> state" where
  "buildChart s = s\<lparr>histogram := Some \<lparr>labels = [], datasets = []\<rparr>\<rparr>"

text \<open>Lines 28-33.\<close>

definition initChart :: "state \<Rightarrow> state" where
  "initChart s = buildChart s"

text \<open>Making a call: it is recorded and is in flight until it settles.\<close>

definition issue :: "api_call \<Rightarrow> continuation \<Rightarrow> state \<Rightarrow> state" where
  "issue c k s = s\<lparr>issued := issued s @ [(c, k)], pending := pending s @ [length (issued s)]\<rparr>"

text \<open>
  Lines 36-40: the arrow function given to \<^verbatim>\<open>untrack\<close>. Its \<^verbatim>\<open>return\<close> leaves the arrow
  function, and \<^verbatim>\<open>refresh\<close> drops the result.
\<close>

definition untrack_peek :: "state \<Rightarrow> unit" where
  "untrack_peek s = (if loading s > 0 then () else ())"

text \<open>
  Lines 35-49. \<open>getInterval\<close> stands for \<^verbatim>\<open>getInterval(parse_timerange(_))\<close> of the
  \<^verbatim>\<open>datetime\<close> module, which is a parameter here.
\<close>

definition refresh :: "(string \<Rightarrow> string) \<Rightarrow> state \<Rightarrow> state" where
  "refresh getInterval s =
     (let u = untrack_peek s;
          s1 = setLoading (\<lambda>n. n + 1) s;
          s2 = initChart s1;
          timeRange = TIME_RANGE s2;
          interval = getInterval timeRange
      in issue (GroupBy ''event_type'' 100 timeRange) (OnGroupBy interval) s2)"

text \<open>Lines 53-88: the loop over the rows, each issuing one histogram call.\<close>

fun for_rows :: "string \<Rightarrow> nat \<Rightarrow> group_row list \<Rightarrow> state \<Rightarrow> state" where
  "for_rows interval cl [] s = s"
| "for_rows interval cl (e # es) s =
     for_rows interval cl es
       (issue (HistogramTime (TIME_RANGE s) interval (key e) '''')
          (OnHistogramTime cl (key e))
          (setLoading (\<lambda>n. n + 1) s))"

text \<open>Lines 50-89: the group-by callback makes its \<^verbatim>\<open>labels\<close> array, then loops.\<close>

definition groupBy_then :: "string \<Rightarrow> group_row list \<Rightarrow> state \<Rightarrow> state" where
  "groupBy_then interval rows s =
     for_rows interval (length (closures s)) rows (s\<lparr>closures := closures s @ [[]]\<rparr>)"

text \<open>Lines 50-92: \<^verbatim>\<open>then\<close> runs on fulfilment only, \<^verbatim>\<open>finally\<close> always.\<close>

definition groupBy_settled :: "string \<Rightarrow> group_row list settled \<Rightarrow> state \<Rightarrow> state" where
  "groupBy_settled interval res s =
     setLoading (\<lambda>n. n - 1)
       (case res of Fulfilled rows \<Rightarrow> groupBy_then interval rows s | Rejected err \<Rightarrow> s)"

text \<open>Lines 64-69, with a chart in place.\<close>

definition fix_labels :: "nat \<Rightarrow> histogram_point list \<Rightarrow> state \<Rightarrow> state" where
  "fix_labels cl response s =
     (if length (closures s ! cl) = 0 then
        s\<lparr>closures := (closures s)[cl := closures s ! cl @ map time response],
          histogram := map_option (\<lambda>h. h\<lparr>labels := closures s ! cl @ map time response\<rparr>)
                         (histogram s)\<rparr>
      else s)"

text \<open>Lines 71-83, with a chart in place.\<close>

definition merge_series :: "nat \<Rightarrow> string \<Rightarrow> histogram_point list \<Rightarrow> state \<Rightarrow> state" where
  "merge_series cl eventType response s =
     (if length response \<noteq> length (closures s ! cl) then
        s\<lparr>console := console s @ [''ERROR: Label and data mismatch'']\<rparr>
      else
        s\<lparr>histogram :=
            map_option (\<lambda>h. h\<lparr>datasets := datasets h @
                [\<lparr>data = map count response, label = eventType, pointRadius = 0,
                  hidden = hiddenTypes_get (hiddenTypes s) eventType, meta_hidden = None\<rparr>]\<rparr>)
              (histogram s)\<rparr>)"

text \<open>
  Lines 63-84. Without a chart (\<^verbatim>\<open>histogram\<close> undefined) the first access of
  \<^verbatim>\<open>histogram.data\<close> throws and ends the callback: after the pushes at line 66 when the
  labels were empty, at line 76 otherwise, unless the lengths differ and line 72 prints.
\<close>

definition histogramTime_then :: "nat \<Rightarrow> string \<Rightarrow> histogram_point list \<Rightarrow> state \<Rightarrow> state" where
  "histogramTime_then cl eventType response s =
     (case histogram s of
        Some h \<Rightarrow> merge_series cl eventType response (fix_labels cl response s)
      | None \<Rightarrow>
          (if length (closures s ! cl) = 0 then
             s\<lparr>closures := (closures s)[cl := closures s ! cl @ map time response]\<rparr>
           else if length response \<noteq> length (closures s ! cl) then
             s\<lparr>console := console s @ [''ERROR: Label and data mismatch'']\<rparr>
           else s))"

text \<open>Lines 63-87.\<close>

definition histogramTime_settled ::
  "nat \<Rightarrow> string \<Rightarrow> histogram_point list settled \<Rightarrow> state \<Rightarrow> state" where
  "histogramTime_settled cl eventType res s =
     setLoading (\<lambda>n. n - 1)
       (case res of
          Fulfilled response \<Rightarrow> histogramTime_then cl eventType response s
        | Rejected err \<Rightarrow> s)"

subsection \<open>The legend\<close>

text \<open>
  The chart library's \<^verbatim>\<open>isDatasetVisible\<close>, \<^verbatim>\<open>hide\<close> and \<^verbatim>\<open>show\<close>: the flag kept beside
  the dataset wins when it is set, otherwise the dataset shows unless its own \<^verbatim>\<open>hidden\<close>
  is truthy.
\<close>

definition dataset_visible :: "dataset \<Rightarrow> bool" where
  "dataset_visible d =
     (case meta_hidden d of
        Some b \<Rightarrow> \<not> b
      | None \<Rightarrow> \<not> truthy (hidden d))"

definition isDatasetVisible :: "chart \<Rightarrow> nat \<Rightarrow> bool" where
  "isDatasetVisible ci index = (index < length (datasets ci) \<and> dataset_visible (datasets ci ! index))"

definition hide :: "chart \<Rightarrow> nat \<Rightarrow> chart" where
  "hide ci index = ci\<lparr>datasets := (datasets ci)[index := (datasets ci ! index)\<lparr>meta_hidden := Some True\<rparr>]\<rparr>"

definition show_dataset :: "chart \<Rightarrow> nat \<Rightarrow> chart" where
  "show_dataset ci index = ci\<lparr>datasets := (datasets ci)[index := (datasets ci ! index)\<lparr>meta_hidden := Some False\<rparr>]\<rparr>"

text \<open>
  Lines 117-130. The legend has one item per dataset, \<^verbatim>\<open>legendItem.text\<close> being the
  dataset's label; an index with no dataset makes the library throw before the registry is
  written, which is \<open>None\<close>.
\<close>

definition legend_onClick :: "nat \<Rightarrow> state \<Rightarrow> state option" where
  "legend_onClick index s =
     (case histogram s of
        None \<Rightarrow> None
      | Some ci \<Rightarrow>
          if index < length (datasets ci) then
            (let eventType = label (datasets ci ! index) in
             if isDatasetVisible ci index then
               Some (s\<lparr>histogram := Some (hide ci index),
                       hiddenTypes := hiddenTypes_set (hiddenTypes s) eventType True\<rparr>)
             else
               Some (s\<lparr>histogram := Some (show_dataset ci index),
                       hiddenTypes := hiddenTypes_set (hiddenTypes s) eventType False\<rparr>))
          else None)"

section \<open>The component as a state machine\<close>

text \<open>
  What can happen to the component: \<^verbatim>\<open>refresh\<close> is called (by the effect at lines 24-26
  when the component is mounted, or by the refresh button), the time-range selection
  changes, a call in flight settles, or a legend item is clicked.

  \<^verbatim>\<open>refresh\<close> reads \<^verbatim>\<open>TIME_RANGE()\<close> at line 43, outside \<^verbatim>\<open>untrack\<close>, while it runs inside
  the effect of lines 24-26: the effect depends on the signal, and every change of the
  selection runs \<^verbatim>\<open>refresh\<close> again, under the new range.

  An event that cannot happen (a change of the selection to the range it has already,
  the settlement of a call that is not in flight, a click on a legend item that does not
  exist) is \<open>None\<close>.
\<close>

datatype event =
    Refresh
  | SetTimeRange string
  | GroupBySettled nat "group_row list settled"
  | HistogramTimeSettled nat "histogram_point list settled"
  | LegendClick nat

fun step :: "(string \<Rightarrow> string) \<Rightarrow> event \<Rightarrow> state \<Rightarrow> state option" where
  "step gi Refresh s = Some (refresh gi s)"
| "step gi (SetTimeRange tr) s =
     (if tr = TIME_RANGE s then None else Some (refresh gi (s\<lparr>TIME_RANGE := tr\<rparr>)))"
| "step gi (GroupBySettled i res) s =
     (if i \<in> set (pending s) \<and> i < length (issued s) then
        (case issued s ! i of
           (GroupBy f n tr, OnGroupBy interval) \<Rightarrow>
             Some (groupBy_settled interval res (s\<lparr>pending := remove1 i (pending s)\<rparr>))
         | _ \<Rightarrow> None)
      else None)"
| "step gi (HistogramTimeSettled i res) s =
     (if i \<in> set (pending s) \<and> i < length (issued s) then
        (case issued s ! i of
           (HistogramTime tr iv et q, OnHistogramTime cl eventType) \<Rightarrow>
             Some (histogramTime_settled cl eventType res (s\<lparr>pending := remove1 i (pending s)\<rparr>))
         | _ \<Rightarrow> None)
      else None)"
| "step gi (LegendClick index) s = legend_onClick index s"

fun run :: "(string \<Rightarrow> string) \<Rightarrow> event list \<Rightarrow> state \<Rightarrow> state option" where
  "run gi [] s = Some s"
| "run gi (e # es) s = (case step gi e s of None \<Rightarrow> None | Some s' \<Rightarrow> run gi es s')"

section \<open>Notions used in the statements\<close>

text \<open>The counter agrees with the number of calls in flight.\<close>

definition balanced :: "state \<Rightarrow> bool" where
  "balanced s \<longleftrightarrow> loading s = int (length (pending s))"

text \<open>
  A stand-in for \<^verbatim>\<open>getInterval(parse_timerange(_))\<close>, used where a run is evaluated on
  concrete data: one minute for the range \<^verbatim>\<open>1h\<close>, fifteen for any other.
\<close>

definition demo_getInterval :: "string \<Rightarrow> string" where
  "demo_getInterval tr = (if tr = ''1h'' then ''1m'' else ''15m'')"


text \<open>
  The events that belong to a cycle once its group-by call has settled, when no other
  cycle is started: settlements of histogram calls and legend clicks.
\<close>

fun in_cycle :: "event \<Rightarrow> bool" where
  "in_cycle (HistogramTimeSettled i res) = True"
| "in_cycle (LegendClick i) = True"
| "in_cycle (SetTimeRange tr) = False"
| "in_cycle Refresh = False"
| "in_cycle (GroupBySettled i res) = False"



text \<open>The histogram responses that arrive fulfilled in a sequence of events, in order.\<close>

fun responses :: "event list \<Rightarrow> histogram_point list list" where
  "responses [] = []"
| "responses (HistogramTimeSettled i (Fulfilled r) # es) = r # responses es"
| "responses (e # es) = responses es"

text \<open>The times of the first response that has a point; no label when there is none.\<close>

fun first_times :: "histogram_point list list \<Rightarrow> int list" where
  "first_times [] = []"
| "first_times (r # rs) = (if r = [] then first_times rs else map time r)"


text \<open>
  The state reached when a first cycle under the range \<^verbatim>\<open>1h\<close> has found the categories
  \<^verbatim>\<open>alert\<close> and \<^verbatim>\<open>stats\<close> and both histograms have arrived; used where a statement is
  evaluated on concrete data.
\<close>

definition demo_state :: state where
  "demo_state =
     \<lparr>loading = 0,
      histogram = Some
        \<lparr>labels = [100, 200],
         datasets =
           [\<lparr>data = [5, 7], label = ''alert'', pointRadius = 0, hidden = Undefined,
             meta_hidden = None\<rparr>,
            \<lparr>data = [1, 2], label = ''stats'', pointRadius = 0, hidden = Boolean True,
             meta_hidden = None\<rparr>]\<rparr>,
      hiddenTypes = [''anomaly'' \<mapsto> True, ''stats'' \<mapsto> True, ''netflow'' \<mapsto> True],
      TIME_RANGE = ''1h'', closures = [[100, 200]],
      issued =
        [(GroupBy ''event_type'' 100 ''1h'', OnGroupBy ''1m''),
         (HistogramTime ''1h'' ''1m'' ''alert'' '''', OnHistogramTime 0 ''alert''),
         (HistogramTime ''1h'' ''1m'' ''stats'' '''', OnHistogramTime 0 ''stats'')],
      pending = [], console = []\<rparr>"

text \<open>
  What holds of a cycle between the moment its group-by callback has run and the moment a
  later cycle starts: its \<^verbatim>\<open>labels\<close> array (at \<open>cl\<close>) and the labels of the chart are
  the same list \<open>L\<close>, and every call in flight is a histogram call of this cycle.
\<close>

definition cycle_inv :: "nat \<Rightarrow> int list \<Rightarrow> state \<Rightarrow> bool" where
  "cycle_inv cl L s \<longleftrightarrow>
     cl < length (closures s) \<and> closures s ! cl = L
     \<and> (\<exists>ci. histogram s = Some ci \<and> labels ci = L)
     \<and> (\<forall>i\<in>set (pending s). i < length (issued s)
           \<and> (\<exists>c k. issued s ! i = (c, OnHistogramTime cl k)))"


text \<open>The first fulfilled histogram response of the sequence, if there is one, has a point.\<close>

fun first_has_points :: "event list \<Rightarrow> bool" where
  "first_has_points [] = True"
| "first_has_points (HistogramTimeSettled i (Fulfilled r) # es) = (r \<noteq> [])"
| "first_has_points (e # es) = first_has_points es"

text \<open>Every series of the chart has as many values as the chart has labels.\<close>

definition lengths_agree :: "chart \<Rightarrow> bool" where
  "lengths_agree ci \<longleftrightarrow>
     list_all (\<lambda>d. length (data d) = length (labels ci)) (datasets ci)"

text \<open>
  The cycle with label array \<open>cl\<close> is under way, the lengths agree, and no series was
  merged while the labels were empty.
\<close>

definition lengths_inv :: "nat \<Rightarrow> state \<Rightarrow> bool" where
  "lengths_inv cl s \<longleftrightarrow>
     (\<exists>ci. histogram s = Some ci \<and> cycle_inv cl (labels ci) s \<and> lengths_agree ci
        \<and> (labels ci = [] \<longrightarrow> datasets ci = []))"

section \<open>What each operation does to each component of the state\<close>

lemma issue_fields:
  "loading (issue c k s) = loading s"
  "pending (issue c k s) = pending s @ [length (issued s)]"
  "issued (issue c k s) = issued s @ [(c, k)]"
  "histogram (issue c k s) = histogram s"
  "hiddenTypes (issue c k s) = hiddenTypes s"
  "TIME_RANGE (issue c k s) = TIME_RANGE s"
  "closures (issue c k s) = closures s"
  "console (issue c k s) = console s"
  by (simp_all add: issue_def)

lemma setLoading_fields:
  "loading (setLoading f s) = f (loading s)"
  "pending (setLoading f s) = pending s"
  "issued (setLoading f s) = issued s"
  "histogram (setLoading f s) = histogram s"
  "hiddenTypes (setLoading f s) = hiddenTypes s"
  "TIME_RANGE (setLoading f s) = TIME_RANGE s"
  "closures (setLoading f s) = closures s"
  "console (setLoading f s) = console s"
  by (simp_all add: setLoading_def)

lemma refresh_fields:
  "loading (refresh gi s) = loading s + 1"
  "pending (refresh gi s) = pending s @ [length (issued s)]"
  "issued (refresh gi s) =
     issued s @ [(GroupBy ''event_type'' 100 (TIME_RANGE s), OnGroupBy (gi (TIME_RANGE s)))]"
  "histogram (refresh gi s) = Some \<lparr>labels = [], datasets = []\<rparr>"
  "hiddenTypes (refresh gi s) = hiddenTypes s"
  "TIME_RANGE (refresh gi s) = TIME_RANGE s"
  "closures (refresh gi s) = closures s"
  "console (refresh gi s) = console s"
  by (simp_all add: refresh_def Let_def initChart_def buildChart_def issue_fields
        setLoading_fields)

lemma for_rows_fields:
  "loading (for_rows iv cl rows s) = loading s + int (length rows)"
  "length (pending (for_rows iv cl rows s)) = length (pending s) + length rows"
  "histogram (for_rows iv cl rows s) = histogram s"
  "hiddenTypes (for_rows iv cl rows s) = hiddenTypes s"
  "TIME_RANGE (for_rows iv cl rows s) = TIME_RANGE s"
  "closures (for_rows iv cl rows s) = closures s"
  "console (for_rows iv cl rows s) = console s"
  by (induction rows arbitrary: s; simp add: issue_fields setLoading_fields)+

lemma for_rows_issued:
  "issued (for_rows iv cl rows s) =
     issued s @
     map (\<lambda>e. (HistogramTime (TIME_RANGE s) iv (key e) '''', OnHistogramTime cl (key e))) rows"
  by (induction rows arbitrary: s) (simp_all add: issue_fields setLoading_fields)

lemma for_rows_pending:
  "pending (for_rows iv cl rows s) =
     pending s @ [length (issued s) ..< length (issued s) + length rows]"
proof (induction rows arbitrary: s)
  case Nil
  then show ?case by simp
next
  case (Cons e es)
  have "[n ..< n + Suc k] = n # [Suc n ..< Suc n + k]" for n k :: nat
    by (simp add: upt_conv_Cons)
  then show ?case
    by (simp add: Cons.IH issue_fields setLoading_fields del: upt_Suc)
qed

lemma groupBy_settled_fields:
  "loading (groupBy_settled iv res s) =
     loading s + (case res of Fulfilled rows \<Rightarrow> int (length rows) | Rejected err \<Rightarrow> 0) - 1"
  "length (pending (groupBy_settled iv res s)) =
     length (pending s) + (case res of Fulfilled rows \<Rightarrow> length rows | Rejected err \<Rightarrow> 0)"
  "hiddenTypes (groupBy_settled iv res s) = hiddenTypes s"
  "TIME_RANGE (groupBy_settled iv res s) = TIME_RANGE s"
  "histogram (groupBy_settled iv res s) = histogram s"
  "console (groupBy_settled iv res s) = console s"
  by (cases res; simp add: groupBy_settled_def groupBy_then_def setLoading_fields
        for_rows_fields)+

lemma histogramTime_then_fields:
  "loading (histogramTime_then cl k r s) = loading s"
  "pending (histogramTime_then cl k r s) = pending s"
  "issued (histogramTime_then cl k r s) = issued s"
  "hiddenTypes (histogramTime_then cl k r s) = hiddenTypes s"
  "TIME_RANGE (histogramTime_then cl k r s) = TIME_RANGE s"
  by (simp_all add: histogramTime_then_def merge_series_def fix_labels_def
        split: option.splits)

lemma histogramTime_settled_fields:
  "loading (histogramTime_settled cl k res s) = loading s - 1"
  "pending (histogramTime_settled cl k res s) = pending s"
  "issued (histogramTime_settled cl k res s) = issued s"
  "hiddenTypes (histogramTime_settled cl k res s) = hiddenTypes s"
  "TIME_RANGE (histogramTime_settled cl k res s) = TIME_RANGE s"
  by (cases res; simp add: histogramTime_settled_def setLoading_fields
        histogramTime_then_fields)+

lemma legend_onClick_fields:
  assumes "legend_onClick i s = Some s'"
  shows "loading s' = loading s" "pending s' = pending s" "issued s' = issued s"
    "TIME_RANGE s' = TIME_RANGE s" "closures s' = closures s" "console s' = console s"
  using assms by (auto simp: legend_onClick_def Let_def split: option.splits if_splits)

text \<open>Evaluating a run on concrete data unfolds every operation.\<close>

lemmas evaluate = run.simps step.simps refresh_def untrack_peek_def setLoading_def
  initChart_def buildChart_def issue_def init_def groupBy_settled_def groupBy_then_def
  for_rows.simps histogramTime_settled_def histogramTime_then_def fix_labels_def
  merge_series_def demo_getInterval_def Let_def legend_onClick_def isDatasetVisible_def
  dataset_visible_def hide_def show_dataset_def hiddenTypes_get_def hiddenTypes_set_def
  Object_prototype_names_def

lemma demo_state_reached:
  "run demo_getInterval
     [Refresh,
      GroupBySettled 0
        (Fulfilled [\<lparr>key = ''alert'', row_count = 50\<rparr>, \<lparr>key = ''stats'', row_count = 10\<rparr>]),
      HistogramTimeSettled 1 (Fulfilled [\<lparr>time = 100, count = 5\<rparr>, \<lparr>time = 200, count = 7\<rparr>]),
      HistogramTimeSettled 2 (Fulfilled [\<lparr>time = 100, count = 1\<rparr>, \<lparr>time = 200, count = 2\<rparr>])]
     (init ''1h'')
   = Some demo_state"
  by (simp add: evaluate demo_state_def)

section \<open>The counter and the calls in flight\<close>

lemma length_remove1_mem:
  "i \<in> set xs \<Longrightarrow> int (length (remove1 i xs)) = int (length xs) - 1"
proof -
  assume mem: "i \<in> set xs"
  then have "Suc 0 \<le> length xs"
    by (cases xs) auto
  then have "int (length xs - 1) = int (length xs) - 1"
    by (simp add: of_nat_diff)
  with mem show ?thesis
    by (simp add: length_remove1)
qed

lemma step_balanced:
  assumes "step gi e s = Some s'" and "balanced s"
  shows "balanced s'"
proof (cases e)
  case Refresh
  with assms show ?thesis by (auto simp: balanced_def refresh_fields)
next
  case (SetTimeRange tr)
  with assms show ?thesis by (auto simp: balanced_def refresh_fields split: if_splits)
next
  case (GroupBySettled i res)
  with assms show ?thesis
    by (cases res)
       (auto simp: balanced_def groupBy_settled_fields dest!: length_remove1_mem
             split: if_splits prod.splits api_call.splits continuation.splits)
next
  case (HistogramTimeSettled i res)
  with assms show ?thesis
    by (auto simp: balanced_def histogramTime_settled_fields dest!: length_remove1_mem
             split: if_splits prod.splits api_call.splits continuation.splits)
next
  case (LegendClick i)
  with assms show ?thesis by (auto simp: balanced_def legend_onClick_fields)
qed

lemma run_balanced:
  "run gi evs s = Some s' \<Longrightarrow> balanced s \<Longrightarrow> balanced s'"
  by (induction evs arbitrary: s) (auto split: option.splits dest: step_balanced)

lemma init_balanced: "balanced (init tr)"
  by (simp add: balanced_def init_def)

text \<open>
  Claim C10. Whatever calls of \<^verbatim>\<open>refresh\<close>, settlements of group-by and histogram calls,
  changes of the time range and legend clicks have happened since the component was
  created, and in whatever order, the counter \<^verbatim>\<open>loading\<close> is not negative: it is the
  number of calls in flight, each call having added one before it was issued and taking
  one away when it settles.
\<close>

theorem loading_never_negative:
  assumes "run gi evs (init tr) = Some s"
  shows "0 \<le> loading s \<and> loading s = int (length (pending s))"
  using run_balanced [OF assms init_balanced] by (simp add: balanced_def)

theorem loading_never_negative_witness:
  "run demo_getInterval
     [Refresh, Refresh,
      GroupBySettled 1 (Fulfilled [\<lparr>key = ''alert'', row_count = 50\<rparr>]),
      HistogramTimeSettled 2 (Rejected ''timeout'')]
     (init ''1h'')
   = Some ((init ''1h'')
       \<lparr>loading := 1, histogram := Some \<lparr>labels = [], datasets = []\<rparr>, closures := [[]],
        issued := [(GroupBy ''event_type'' 100 ''1h'', OnGroupBy ''1m''),
                   (GroupBy ''event_type'' 100 ''1h'', OnGroupBy ''1m''),
                   (HistogramTime ''1h'' ''1m'' ''alert'' '''', OnHistogramTime 0 ''alert'')],
        pending := [0]\<rparr>)
   \<and> 0 \<le> loading ((init ''1h'')
       \<lparr>loading := 1, histogram := Some \<lparr>labels = [], datasets = []\<rparr>, closures := [[]],
        issued := [(GroupBy ''event_type'' 100 ''1h'', OnGroupBy ''1m''),
                   (GroupBy ''event_type'' 100 ''1h'', OnGroupBy ''1m''),
                   (HistogramTime ''1h'' ''1m'' ''alert'' '''', OnHistogramTime 0 ''alert'')],
        pending := [0]\<rparr>)
   \<and> loading ((init ''1h'')
       \<lparr>loading := 1, histogram := Some \<lparr>labels = [], datasets = []\<rparr>, closures := [[]],
        issued := [(GroupBy ''event_type'' 100 ''1h'', OnGroupBy ''1m''),
                   (GroupBy ''event_type'' 100 ''1h'', OnGroupBy ''1m''),
                   (HistogramTime ''1h'' ''1m'' ''alert'' '''', OnHistogramTime 0 ''alert'')],
        pending := [0]\<rparr>) = 1"
proof -
  have r: "run demo_getInterval
     [Refresh, Refresh,
      GroupBySettled 1 (Fulfilled [\<lparr>key = ''alert'', row_count = 50\<rparr>]),
      HistogramTimeSettled 2 (Rejected ''timeout'')]
     (init ''1h'')
   = Some ((init ''1h'')
       \<lparr>loading := 1, histogram := Some \<lparr>labels = [], datasets = []\<rparr>, closures := [[]],
        issued := [(GroupBy ''event_type'' 100 ''1h'', OnGroupBy ''1m''),
                   (GroupBy ''event_type'' 100 ''1h'', OnGroupBy ''1m''),
                   (HistogramTime ''1h'' ''1m'' ''alert'' '''', OnHistogramTime 0 ''alert'')],
        pending := [0]\<rparr>)"
    by (simp add: evaluate)
  from loading_never_negative [OF r] r show ?thesis
    by simp
qed

text \<open>
  Claim C1. The claim fails on the code: the \<^verbatim>\<open>return\<close> at line 38 leaves only the arrow
  function given to \<^verbatim>\<open>untrack\<close>. Here \<^verbatim>\<open>refresh\<close> is called a second time while one
  histogram call of the first cycle is still in flight (\<^verbatim>\<open>loading\<close> is 1 and the chart
  shows one series): the counter goes to 2, the chart is rebuilt empty and a second
  group-by call is issued.
\<close>

theorem refresh_while_loading_runs_again:
  "map_option (\<lambda>s. (loading s, histogram s, issued s, pending s))
     (run demo_getInterval
        [Refresh,
         GroupBySettled 0
           (Fulfilled [\<lparr>key = ''alert'', row_count = 50\<rparr>, \<lparr>key = ''dns'', row_count = 10\<rparr>]),
         HistogramTimeSettled 1
           (Fulfilled [\<lparr>time = 100, count = 5\<rparr>, \<lparr>time = 200, count = 7\<rparr>])]
        (init ''1h''))
   = Some (1,
       Some \<lparr>labels = [100, 200],
             datasets = [\<lparr>data = [5, 7], label = ''alert'', pointRadius = 0,
                          hidden = Undefined, meta_hidden = None\<rparr>]\<rparr>,
       [(GroupBy ''event_type'' 100 ''1h'', OnGroupBy ''1m''),
        (HistogramTime ''1h'' ''1m'' ''alert'' '''', OnHistogramTime 0 ''alert''),
        (HistogramTime ''1h'' ''1m'' ''dns'' '''', OnHistogramTime 0 ''dns'')],
       [2])
   \<and>
   map_option (\<lambda>s. (loading s, histogram s, issued s, pending s))
     (run demo_getInterval
        [Refresh,
         GroupBySettled 0
           (Fulfilled [\<lparr>key = ''alert'', row_count = 50\<rparr>, \<lparr>key = ''dns'', row_count = 10\<rparr>]),
         HistogramTimeSettled 1
           (Fulfilled [\<lparr>time = 100, count = 5\<rparr>, \<lparr>time = 200, count = 7\<rparr>]),
         Refresh]
        (init ''1h''))
   = Some (2,
       Some \<lparr>labels = [], datasets = []\<rparr>,
       [(GroupBy ''event_type'' 100 ''1h'', OnGroupBy ''1m''),
        (HistogramTime ''1h'' ''1m'' ''alert'' '''', OnHistogramTime 0 ''alert''),
        (HistogramTime ''1h'' ''1m'' ''dns'' '''', OnHistogramTime 0 ''dns''),
        (GroupBy ''event_type'' 100 ''1h'', OnGroupBy ''1m'')],
       [2, 3])"
  by (simp add: evaluate)

text \<open>
  Claim C6. The claim fails on the code: line 58 reads \<^verbatim>\<open>TIME_RANGE()\<close> again instead
  of the \<^verbatim>\<open>timeRange\<close> captured at line 43. A cycle starts under the range \<^verbatim>\<open>1h\<close>, the
  selection changes to \<^verbatim>\<open>24h\<close> (which starts a second cycle, with its own group-by
  call), and then the group-by call of the first cycle answers with one category: the
  histogram call of the first cycle is sent with the range \<^verbatim>\<open>24h\<close> and the interval
  computed for \<^verbatim>\<open>1h\<close>.
\<close>

theorem histogram_call_reads_time_range_again:
  "map_option issued
     (run demo_getInterval
        [Refresh, SetTimeRange ''24h'',
         GroupBySettled 0 (Fulfilled [\<lparr>key = ''alert'', row_count = 50\<rparr>])]
        (init ''1h''))
   = Some [(GroupBy ''event_type'' 100 ''1h'', OnGroupBy ''1m''),
           (GroupBy ''event_type'' 100 ''24h'', OnGroupBy ''15m''),
           (HistogramTime ''24h'' ''1m'' ''alert'' '''', OnHistogramTime 0 ''alert'')]"
  by (simp add: evaluate)

section \<open>Failure of the group-by call\<close>

text \<open>
  Claim C8, as amended. When the group-by call of a cycle is rejected, no histogram call
  is issued and the counter is decremented by one for that call. The code itself reports
  nothing: the rejection has no handler, \<^verbatim>\<open>console.log\<close> is not called, and the chart
  and the label arrays are left as they were.
\<close>

theorem discovery_failure:
  assumes "step gi (GroupBySettled i (Rejected err)) s = Some s'"
  shows "issued s' = issued s \<and> pending s' = remove1 i (pending s)
    \<and> loading s' = loading s - 1 \<and> console s' = console s
    \<and> histogram s' = histogram s \<and> closures s' = closures s
    \<and> hiddenTypes s' = hiddenTypes s"
  using assms
  by (auto simp: groupBy_settled_def setLoading_def
      split: if_splits prod.splits api_call.splits continuation.splits)

theorem discovery_failure_witness:
  "step demo_getInterval (GroupBySettled 0 (Rejected ''connection refused''))
     (refresh demo_getInterval (init ''1h''))
   = Some ((refresh demo_getInterval (init ''1h''))\<lparr>loading := 0, pending := []\<rparr>)
   \<and> issued ((refresh demo_getInterval (init ''1h''))\<lparr>loading := 0, pending := []\<rparr>)
       = [(GroupBy ''event_type'' 100 ''1h'', OnGroupBy ''1m'')]
   \<and> loading ((refresh demo_getInterval (init ''1h''))\<lparr>loading := 0, pending := []\<rparr>)
       = loading (refresh demo_getInterval (init ''1h'')) - 1"
proof -
  have h: "step demo_getInterval (GroupBySettled 0 (Rejected ''connection refused''))
     (refresh demo_getInterval (init ''1h''))
   = Some ((refresh demo_getInterval (init ''1h''))\<lparr>loading := 0, pending := []\<rparr>)"
    by (simp add: evaluate)
  from discovery_failure [OF h] h show ?thesis
    by (simp add: refresh_fields init_def demo_getInterval_def)
qed

text \<open>
  Claim C8 as stated fails: after a cycle whose group-by call is rejected, nothing has
  been printed.
\<close>

theorem discovery_failure_not_reported:
  "map_option console
     (run demo_getInterval [Refresh, GroupBySettled 0 (Rejected ''connection refused'')]
        (init ''1h''))
   = Some []"
  by (simp add: evaluate)

section \<open>The legend\<close>







section \<open>Merging a histogram response\<close>

lemma fix_labels_closure:
  assumes "cl < length (closures s)"
  shows "closures (fix_labels cl r s) ! cl =
     (if closures s ! cl = [] then map time r else closures s ! cl)"
  using assms by (simp add: fix_labels_def)

lemma fix_labels_fields:
  "hiddenTypes (fix_labels cl r s) = hiddenTypes s"
  "console (fix_labels cl r s) = console s"
  "length (closures (fix_labels cl r s)) = length (closures s)"
  "histogram (fix_labels cl r s) =
     (if closures s ! cl = [] then map_option (\<lambda>h. h\<lparr>labels := map time r\<rparr>) (histogram s)
      else histogram s)"
  by (simp_all add: fix_labels_def)

lemma histogramTime_then_merged:
  assumes ci: "histogram s = Some ci" and cl: "cl < length (closures s)"
    and ok: "closures s ! cl = [] \<or> length r = length (closures s ! cl)"
  shows "histogram (histogramTime_then cl k r s) =
     Some \<lparr>labels = (if closures s ! cl = [] then map time r else labels ci),
           datasets = datasets ci @
             [\<lparr>data = map count r, label = k, pointRadius = 0,
               hidden = hiddenTypes_get (hiddenTypes s) k, meta_hidden = None\<rparr>]\<rparr>"
    and "console (histogramTime_then cl k r s) = console s"
    and "closures (histogramTime_then cl k r s) =
      (closures s)[cl := (if closures s ! cl = [] then map time r else closures s ! cl)]"
  using assms
  by (auto simp: histogramTime_then_def merge_series_def fix_labels_closure fix_labels_fields
       fix_labels_def)

lemma histogramTime_then_skipped:
  assumes ci: "histogram s = Some ci" and cl: "cl < length (closures s)"
    and bad: "closures s ! cl \<noteq> []" "length r \<noteq> length (closures s ! cl)"
  shows "histogram (histogramTime_then cl k r s) = Some ci"
    and "console (histogramTime_then cl k r s) = console s @ [''ERROR: Label and data mismatch'']"
    and "closures (histogramTime_then cl k r s) = closures s"
  using assms
  by (auto simp: histogramTime_then_def merge_series_def fix_labels_def)

text \<open>
  Claim C7, as amended. When a fulfilled histogram response is merged (the labels of its
  cycle were still empty, or it has as many points as there are labels), one series is
  appended to the chart: its label is the category key \<^verbatim>\<open>e.key\<close> for which the call was
  issued, its values are the counts of the points in order, and its \<^verbatim>\<open>hidden\<close> flag is
  what \<^verbatim>\<open>hiddenTypes[e.key]\<close> reads, so that the series shows unless that value is
  truthy. The group-by callback issues each call with the key it gives to the callback.
  At the start \<^verbatim>\<open>hiddenTypes\<close> holds true for \<^verbatim>\<open>anomaly\<close>, \<^verbatim>\<open>stats\<close> and \<^verbatim>\<open>netflow\<close> and
  nothing else. A key that \<^verbatim>\<open>hiddenTypes\<close> does not hold reads \<^verbatim>\<open>undefined\<close>, and its
  series shows, provided the key is not the name of a member of \<^verbatim>\<open>Object.prototype\<close>.
\<close>

theorem merged_series_shape:
  assumes "step gi (HistogramTimeSettled i (Fulfilled response)) s = Some s'"
    and "issued s ! i = (c, OnHistogramTime cl eventType)"
    and "histogram s = Some ci" and "cl < length (closures s)"
    and "closures s ! cl = [] \<or> length response = length (closures s ! cl)"
  shows "(\<exists>ci'. histogram s' = Some ci'
      \<and> datasets ci' = datasets ci @
          [\<lparr>data = map count response, label = eventType, pointRadius = 0,
            hidden = hiddenTypes_get (hiddenTypes s) eventType, meta_hidden = None\<rparr>]
      \<and> isDatasetVisible ci' (length (datasets ci)) =
          (\<not> truthy (hiddenTypes_get (hiddenTypes s) eventType))
      \<and> (hiddenTypes s eventType = None \<and> eventType \<notin> set Object_prototype_names \<longrightarrow>
            hiddenTypes_get (hiddenTypes s) eventType = Undefined
            \<and> isDatasetVisible ci' (length (datasets ci))))
    \<and> issued (groupBy_settled iv (Fulfilled rows) s0) =
        issued s0 @
        map (\<lambda>e. (HistogramTime (TIME_RANGE s0) iv (key e) '''',
                   OnHistogramTime (length (closures s0)) (key e))) rows
    \<and> hiddenTypes (init tr) k =
        (if k \<in> {''anomaly'', ''stats'', ''netflow''} then Some True else None)
    \<and> hiddenTypes_get (hiddenTypes (init tr)) k =
        (if k \<in> {''anomaly'', ''stats'', ''netflow''} then Boolean True
         else if k \<in> set Object_prototype_names then Inherited else Undefined)"
proof -
  from assms(1,2) have s': "s' = histogramTime_settled cl eventType (Fulfilled response)
      (s\<lparr>pending := remove1 i (pending s)\<rparr>)"
    by (auto split: if_splits api_call.splits)
  let ?s0 = "s\<lparr>pending := remove1 i (pending s)\<rparr>"
  let ?v = "hiddenTypes_get (hiddenTypes s) eventType"
  have "histogram ?s0 = Some ci" "cl < length (closures ?s0)"
    "closures ?s0 ! cl = [] \<or> length response = length (closures ?s0 ! cl)"
    using assms(3-5) by simp_all
  from histogramTime_then_merged(1) [OF this, of eventType]
  have shape: "\<exists>ci'. histogram s' = Some ci'
      \<and> datasets ci' = datasets ci @
          [\<lparr>data = map count response, label = eventType, pointRadius = 0,
            hidden = ?v, meta_hidden = None\<rparr>]
      \<and> isDatasetVisible ci' (length (datasets ci)) = (\<not> truthy ?v)"
    by (simp add: s' histogramTime_settled_def setLoading_def isDatasetVisible_def
        dataset_visible_def)
  have unseen: "hiddenTypes s eventType = None \<and> eventType \<notin> set Object_prototype_names \<longrightarrow>
      ?v = Undefined"
    by (auto simp: hiddenTypes_get_def Object_prototype_names_def)
  from shape unseen have merged: "\<exists>ci'. histogram s' = Some ci'
      \<and> datasets ci' = datasets ci @
          [\<lparr>data = map count response, label = eventType, pointRadius = 0,
            hidden = ?v, meta_hidden = None\<rparr>]
      \<and> isDatasetVisible ci' (length (datasets ci)) = (\<not> truthy ?v)
      \<and> (hiddenTypes s eventType = None \<and> eventType \<notin> set Object_prototype_names \<longrightarrow>
            ?v = Undefined \<and> isDatasetVisible ci' (length (datasets ci)))"
    by auto
  have calls: "issued (groupBy_settled iv (Fulfilled rows) s0) =
        issued s0 @
        map (\<lambda>e. (HistogramTime (TIME_RANGE s0) iv (key e) '''',
                   OnHistogramTime (length (closures s0)) (key e))) rows"
    by (simp add: groupBy_settled_def groupBy_then_def setLoading_fields for_rows_issued)
  have registry: "hiddenTypes (init tr) k =
        (if k \<in> {''anomaly'', ''stats'', ''netflow''} then Some True else None)"
    by (simp add: init_def)
  have reads: "hiddenTypes_get (hiddenTypes (init tr)) k =
        (if k \<in> {''anomaly'', ''stats'', ''netflow''} then Boolean True
         else if k \<in> set Object_prototype_names then Inherited else Undefined)"
    by (auto simp: init_def hiddenTypes_get_def Object_prototype_names_def)
  from merged calls registry reads show ?thesis
    by (intro conjI)
qed

theorem merged_series_shape_witness:
  "step demo_getInterval
     (HistogramTimeSettled 1 (Fulfilled [\<lparr>time = 100, count = 5\<rparr>, \<lparr>time = 200, count = 7\<rparr>]))
     (demo_state
        \<lparr>loading := 2, pending := [1, 2], closures := [[]],
         histogram := Some \<lparr>labels = [], datasets = []\<rparr>\<rparr>)
   = Some (demo_state
        \<lparr>loading := 1, pending := [2],
         histogram := Some
           \<lparr>labels = [100, 200],
            datasets = [\<lparr>data = [5, 7], label = ''alert'', pointRadius = 0,
                         hidden = Undefined, meta_hidden = None\<rparr>]\<rparr>\<rparr>)
   \<and> issued demo_state ! 1 = (HistogramTime ''1h'' ''1m'' ''alert'' '''', OnHistogramTime 0 ''alert'')
   \<and> hiddenTypes demo_state ''alert'' = None \<and> ''alert'' \<notin> set Object_prototype_names
   \<and> (\<exists>ci'. histogram (demo_state
        \<lparr>loading := 1, pending := [2],
         histogram := Some
           \<lparr>labels = [100, 200],
            datasets = [\<lparr>data = [5, 7], label = ''alert'', pointRadius = 0,
                         hidden = Undefined, meta_hidden = None\<rparr>]\<rparr>\<rparr>) = Some ci'
        \<and> datasets ci' =
            [\<lparr>data = [5, 7], label = ''alert'', pointRadius = 0, hidden = Undefined,
              meta_hidden = None\<rparr>]
        \<and> isDatasetVisible ci' 0)"
proof -
  let ?s = "demo_state
        \<lparr>loading := 2, pending := [1, 2], closures := [[]],
         histogram := Some \<lparr>labels = [], datasets = []\<rparr>\<rparr>"
  let ?s' = "demo_state
        \<lparr>loading := 1, pending := [2],
         histogram := Some
           \<lparr>labels = [100, 200],
            datasets = [\<lparr>data = [5, 7], label = ''alert'', pointRadius = 0,
                         hidden = Undefined, meta_hidden = None\<rparr>]\<rparr>\<rparr>"
  have h: "step demo_getInterval
     (HistogramTimeSettled 1 (Fulfilled [\<lparr>time = 100, count = 5\<rparr>, \<lparr>time = 200, count = 7\<rparr>]))
     ?s = Some ?s'"
    by (simp add: evaluate demo_state_def)
  have i: "issued ?s ! 1 = (HistogramTime ''1h'' ''1m'' ''alert'' '''', OnHistogramTime 0 ''alert'')"
    by (simp add: demo_state_def)
  have c: "histogram ?s = Some \<lparr>labels = [], datasets = []\<rparr>"
    by simp
  have l: "0 < length (closures ?s)"
    by simp
  have m: "closures ?s ! 0 = [] \<or>
    length [\<lparr>time = 100, count = 5\<rparr>, \<lparr>time = 200, count = (7::int)\<rparr>] = length (closures ?s ! 0)"
    by simp
  have r: "hiddenTypes ?s ''alert'' = None" "''alert'' \<notin> set Object_prototype_names"
    by (simp_all add: demo_state_def Object_prototype_names_def)
  from merged_series_shape [OF h i c l m] h i r show ?thesis
    by (auto simp: demo_state_def)
qed

text \<open>
  Claim C7 as stated fails for a key that names a member of \<^verbatim>\<open>Object.prototype\<close>. The
  category \<^verbatim>\<open>constructor\<close> is not in \<^verbatim>\<open>hiddenTypes\<close>, yet line 75 reads the inherited
  function, which is truthy: the series is created hidden.
\<close>

theorem unseen_key_created_hidden:
  "hiddenTypes (init ''1h'') ''constructor'' = None
   \<and>
   map_option
     (\<lambda>s. (histogram s, map_option (\<lambda>ci. isDatasetVisible ci 0) (histogram s)))
     (run demo_getInterval
        [Refresh,
         GroupBySettled 0 (Fulfilled [\<lparr>key = ''constructor'', row_count = 3\<rparr>]),
         HistogramTimeSettled 1 (Fulfilled [\<lparr>time = 100, count = 3\<rparr>])]
        (init ''1h''))
   = Some (Some \<lparr>labels = [100],
                 datasets = [\<lparr>data = [3], label = ''constructor'', pointRadius = 0,
                              hidden = Inherited, meta_hidden = None\<rparr>]\<rparr>,
           Some False)"
  by (simp add: evaluate)

section \<open>One cycle run from a quiet state\<close>






section \<open>The labels of a cycle\<close>

lemma histogramTime_then_cycle:
  assumes cl: "cl < length (closures s)" and L: "closures s ! cl = L"
    and ci: "histogram s = Some ci" "labels ci = L"
  shows "\<exists>ci'. histogram (histogramTime_then cl k r s) = Some ci'
      \<and> labels ci' = (if L = [] then map time r else L)"
    and "closures (histogramTime_then cl k r s) ! cl = (if L = [] then map time r else L)"
    and "length (closures (histogramTime_then cl k r s)) = length (closures s)"
proof -
  show "\<exists>ci'. histogram (histogramTime_then cl k r s) = Some ci'
      \<and> labels ci' = (if L = [] then map time r else L)"
    using assms by (auto simp: histogramTime_then_def merge_series_def fix_labels_def)
  show "closures (histogramTime_then cl k r s) ! cl = (if L = [] then map time r else L)"
    using assms by (auto simp: histogramTime_then_def merge_series_def fix_labels_def)
  show "length (closures (histogramTime_then cl k r s)) = length (closures s)"
    using assms by (auto simp: histogramTime_then_def merge_series_def fix_labels_def)
qed

lemma step_cycle_inv:
  assumes inv: "cycle_inv cl L s" and st: "step gi e s = Some s'" and "in_cycle e"
  shows "cycle_inv cl (if L \<noteq> [] then L else first_times (responses [e])) s'"
proof (cases e)
  case (HistogramTimeSettled i res)
  with st have mem: "i \<in> set (pending s)" "i < length (issued s)"
    by (auto split: if_splits)
  with inv obtain c k where ik: "issued s ! i = (c, OnHistogramTime cl k)"
    by (auto simp: cycle_inv_def)
  with st HistogramTimeSettled mem
  have s': "s' = histogramTime_settled cl k res (s\<lparr>pending := remove1 i (pending s)\<rparr>)"
    by (auto split: api_call.splits)
  let ?s0 = "s\<lparr>pending := remove1 i (pending s)\<rparr>"
  from inv obtain ci where ci: "histogram ?s0 = Some ci" "labels ci = L"
    and cl: "cl < length (closures ?s0)" "closures ?s0 ! cl = L"
    by (auto simp: cycle_inv_def)
  have pend: "\<forall>j\<in>set (pending s'). j < length (issued s')
           \<and> (\<exists>c k. issued s' ! j = (c, OnHistogramTime cl k))"
    using inv by (auto simp: s' histogramTime_settled_fields cycle_inv_def dest: notin_set_remove1)
  show ?thesis
  proof (cases res)
    case (Fulfilled r)
    let ?t = "histogramTime_then cl k r ?s0"
    have t: "s' = setLoading (\<lambda>n. n - 1) ?t"
      by (simp add: s' Fulfilled histogramTime_settled_def)
    have L': "(if L \<noteq> [] then L else first_times (responses [e])) =
        (if L = [] then map time r else L)"
      by (simp add: HistogramTimeSettled Fulfilled)
    from histogramTime_then_cycle [OF cl ci, of k r] cl(1)
    have "cl < length (closures s')"
      and "closures s' ! cl = (if L = [] then map time r else L)"
      and "\<exists>ci'. histogram s' = Some ci' \<and> labels ci' = (if L = [] then map time r else L)"
      by (simp_all add: t setLoading_fields)
    with pend show ?thesis
      unfolding L' cycle_inv_def by blast
  next
    case (Rejected err)
    with ci cl pend show ?thesis
      by (auto simp: cycle_inv_def s' HistogramTimeSettled histogramTime_settled_def
          setLoading_def)
  qed
next
  case (LegendClick i)
  with st have click: "legend_onClick i s = Some s'"
    by simp
  then have "\<exists>ci. histogram s = Some ci \<and> (\<exists>ci'. histogram s' = Some ci' \<and> labels ci' = labels ci)"
    by (auto simp: legend_onClick_def Let_def hide_def show_dataset_def
        split: option.splits if_splits)
  with inv legend_onClick_fields [OF click] LegendClick show ?thesis
    by (auto simp: cycle_inv_def)
qed (use assms(3) in simp_all)

lemma run_cycle_inv:
  assumes "cycle_inv cl L s" and "run gi hs s = Some s'" and "\<forall>e\<in>set hs. in_cycle e"
  shows "cycle_inv cl (if L \<noteq> [] then L else first_times (responses hs)) s'"
  using assms
proof (induction hs arbitrary: s L)
  case Nil
  then show ?case by (cases "L = []") auto
next
  case (Cons e hs)
  from Cons.prems(2) obtain s1 where e: "step gi e s = Some s1" and hs: "run gi hs s1 = Some s'"
    by (auto split: option.splits)
  from Cons.prems(3) have ce: "in_cycle e" and chs: "\<forall>e\<in>set hs. in_cycle e"
    by simp_all
  let ?L1 = "if L \<noteq> [] then L else first_times (responses [e])"
  from Cons.IH [OF step_cycle_inv [OF Cons.prems(1) e ce] hs chs]
  have "cycle_inv cl (if ?L1 \<noteq> [] then ?L1 else first_times (responses hs)) s'" .
  moreover have "(if ?L1 \<noteq> [] then ?L1 else first_times (responses hs)) =
      (if L \<noteq> [] then L else first_times (responses (e # hs)))"
  proof (cases e)
    case (HistogramTimeSettled i res)
    then show ?thesis by (cases res) auto
  qed auto
  ultimately show ?case by simp
qed

lemma cycle_inv_after_discovery:
  assumes quiet: "pending s0 = []"
    and d: "step gi (GroupBySettled d (Fulfilled rows)) (refresh gi s0) = Some s2"
  shows "cycle_inv (length (closures s0)) [] s2"
proof -
  let ?s1 = "refresh gi s0"
  from d quiet have dd: "d = length (issued s0)"
    by (auto simp: refresh_fields split: if_splits)
  let ?iv = "gi (TIME_RANGE s0)"
  let ?s1' = "?s1\<lparr>pending := remove1 d (pending ?s1)\<rparr>"
  from d dd have s2: "s2 = groupBy_settled ?iv (Fulfilled rows) ?s1'"
    by (auto simp: refresh_fields split: if_splits)
  have p1: "pending ?s1' = []"
    using quiet dd by (simp add: refresh_fields)
  have cl: "closures s2 = closures s0 @ [[]]"
    by (simp add: s2 groupBy_settled_def groupBy_then_def setLoading_fields for_rows_fields
        refresh_fields)
  have h: "histogram s2 = Some \<lparr>labels = [], datasets = []\<rparr>"
    by (simp add: s2 groupBy_settled_fields refresh_fields)
  have iss: "issued s2 = issued ?s1 @
      map (\<lambda>e. (HistogramTime (TIME_RANGE s0) ?iv (key e) '''',
                 OnHistogramTime (length (closures s0)) (key e))) rows"
    by (simp add: s2 groupBy_settled_def groupBy_then_def setLoading_fields for_rows_issued
        refresh_fields)
  have pen: "pending s2 = [length (issued ?s1) ..< length (issued ?s1) + length rows]"
    using p1
    by (simp add: s2 groupBy_settled_def groupBy_then_def setLoading_fields for_rows_pending)
  have "\<forall>i\<in>set (pending s2). i < length (issued s2)
           \<and> (\<exists>c k. issued s2 ! i = (c, OnHistogramTime (length (closures s0)) k))"
    unfolding pen iss by (auto simp: nth_append)
  with cl h show ?thesis
    by (simp add: cycle_inv_def)
qed

lemma responses_append: "responses (xs @ ys) = responses xs @ responses ys"
  by (induction xs rule: responses.induct) simp_all

lemma first_times_append:
  "first_times (rs @ rs') = (if first_times rs \<noteq> [] then first_times rs else first_times rs')"
  by (induction rs) auto

text \<open>
  Claim C2, as amended. A cycle starts by \<^verbatim>\<open>refresh\<close> in a state with no call in flight,
  its group-by call is fulfilled, and no other cycle starts before it ends (no further
  call of \<^verbatim>\<open>refresh\<close>, no change of the time range). Then for every sequence of
  histogram settlements (in any order, fulfilled or rejected, with legend clicks in
  between), the labels of the chart are the \<^verbatim>\<open>time\<close> values of the first fulfilled
  response that has at least one point, and are empty when there is none. Once a response
  with points has arrived, the labels are those of that response whatever arrives later.
\<close>

theorem labels_from_first_response_with_points:
  assumes quiet: "pending s0 = []"
    and cycle: "run gi (Refresh # GroupBySettled d (Fulfilled rows) # hs) s0 = Some s"
    and only: "\<forall>e\<in>set hs. in_cycle e"
  shows "\<exists>ci. histogram s = Some ci \<and> labels ci = first_times (responses hs)
    \<and> (\<forall>hs1 hs2. hs = hs1 @ hs2 \<and> first_times (responses hs1) \<noteq> [] \<longrightarrow>
          labels ci = first_times (responses hs1))"
proof -
  from cycle obtain s2
    where d: "step gi (GroupBySettled d (Fulfilled rows)) (refresh gi s0) = Some s2"
      and hs: "run gi hs s2 = Some s"
    by (auto split: option.splits)
  from run_cycle_inv [OF cycle_inv_after_discovery [OF quiet d] hs only]
  obtain ci where "histogram s = Some ci" "labels ci = first_times (responses hs)"
    by (auto simp: cycle_inv_def)
  then show ?thesis
    by (auto simp: responses_append first_times_append)
qed

theorem labels_from_first_response_with_points_witness:
  "pending (init ''1h'') = []
   \<and> run demo_getInterval
       (Refresh #
        GroupBySettled 0
          (Fulfilled [\<lparr>key = ''alert'', row_count = 50\<rparr>, \<lparr>key = ''stats'', row_count = 10\<rparr>]) #
        [HistogramTimeSettled 2 (Fulfilled [\<lparr>time = 100, count = 1\<rparr>, \<lparr>time = 200, count = 2\<rparr>]),
         HistogramTimeSettled 1 (Fulfilled [\<lparr>time = 100, count = 5\<rparr>])])
       (init ''1h'')
     = Some (demo_state
         \<lparr>histogram := Some
            \<lparr>labels = [100, 200],
             datasets = [\<lparr>data = [1, 2], label = ''stats'', pointRadius = 0,
                          hidden = Boolean True, meta_hidden = None\<rparr>]\<rparr>,
          console := [''ERROR: Label and data mismatch'']\<rparr>)
   \<and> first_times (responses
        [HistogramTimeSettled 2 (Fulfilled [\<lparr>time = 100, count = 1\<rparr>, \<lparr>time = 200, count = 2\<rparr>]),
         HistogramTimeSettled 1 (Fulfilled [\<lparr>time = 100, count = 5\<rparr>])]) = [100, 200]
   \<and> (\<exists>ci. histogram (demo_state
         \<lparr>histogram := Some
            \<lparr>labels = [100, 200],
             datasets = [\<lparr>data = [1, 2], label = ''stats'', pointRadius = 0,
                          hidden = Boolean True, meta_hidden = None\<rparr>]\<rparr>,
          console := [''ERROR: Label and data mismatch'']\<rparr>) = Some ci
        \<and> labels ci = [100, 200])"
proof -
  let ?hs = "[HistogramTimeSettled 2 (Fulfilled [\<lparr>time = 100, count = 1\<rparr>, \<lparr>time = 200, count = 2\<rparr>]),
         HistogramTimeSettled 1 (Fulfilled [\<lparr>time = 100, count = 5\<rparr>])]"
  have q: "pending (init ''1h'') = []"
    by (simp add: init_def)
  have r: "run demo_getInterval
       (Refresh #
        GroupBySettled 0
          (Fulfilled [\<lparr>key = ''alert'', row_count = 50\<rparr>, \<lparr>key = ''stats'', row_count = 10\<rparr>]) #
        ?hs)
       (init ''1h'')
     = Some (demo_state
         \<lparr>histogram := Some
            \<lparr>labels = [100, 200],
             datasets = [\<lparr>data = [1, 2], label = ''stats'', pointRadius = 0,
                          hidden = Boolean True, meta_hidden = None\<rparr>]\<rparr>,
          console := [''ERROR: Label and data mismatch'']\<rparr>)"
    by (simp add: evaluate demo_state_def)
  have o: "\<forall>e\<in>set ?hs. in_cycle e"
    by simp
  have f: "first_times (responses ?hs) = [100, 200]"
    by simp
  from labels_from_first_response_with_points [OF q r o] q r f show ?thesis
    by auto
qed

text \<open>
  Claim C2 as stated fails: the response that is merged first has no point; it is merged
  (the chart gets its series) and the labels stay empty, and the next response sets them.
  The labels at the end are not the \<^verbatim>\<open>time\<close> values of the response merged first.
\<close>

theorem labels_not_from_first_merged_response:
  "map_option histogram
     (run demo_getInterval
        [Refresh,
         GroupBySettled 0
           (Fulfilled [\<lparr>key = ''alert'', row_count = 50\<rparr>, \<lparr>key = ''dns'', row_count = 10\<rparr>]),
         HistogramTimeSettled 2 (Fulfilled [])]
        (init ''1h''))
   = Some (Some \<lparr>labels = [],
                 datasets = [\<lparr>data = [], label = ''dns'', pointRadius = 0, hidden = Undefined,
                              meta_hidden = None\<rparr>]\<rparr>)
   \<and>
   map_option histogram
     (run demo_getInterval
        [Refresh,
         GroupBySettled 0
           (Fulfilled [\<lparr>key = ''alert'', row_count = 50\<rparr>, \<lparr>key = ''dns'', row_count = 10\<rparr>]),
         HistogramTimeSettled 2 (Fulfilled []),
         HistogramTimeSettled 1 (Fulfilled [\<lparr>time = 100, count = 5\<rparr>, \<lparr>time = 200, count = 7\<rparr>])]
        (init ''1h''))
   = Some (Some \<lparr>labels = [100, 200],
                 datasets = [\<lparr>data = [], label = ''dns'', pointRadius = 0, hidden = Undefined,
                              meta_hidden = None\<rparr>,
                             \<lparr>data = [5, 7], label = ''alert'', pointRadius = 0, hidden = Undefined,
                              meta_hidden = None\<rparr>]\<rparr>)
   \<and>
   map_option (\<lambda>s. map_option labels (histogram s))
     (run demo_getInterval
        [Refresh,
         GroupBySettled 0
           (Fulfilled [\<lparr>key = ''alert'', row_count = 50\<rparr>, \<lparr>key = ''dns'', row_count = 10\<rparr>]),
         HistogramTimeSettled 2 (Fulfilled []),
         HistogramTimeSettled 1 (Fulfilled [\<lparr>time = 100, count = 5\<rparr>, \<lparr>time = 200, count = 7\<rparr>])]
        (init ''1h''))
   \<noteq> Some (Some (map time []))"
  by (simp add: evaluate)

section \<open>The lengths of the series\<close>

text \<open>
  When the first fulfilled response of a cycle has a point, and no other cycle starts
  before the cycle ends, every series of the chart has as many values as there are
  labels, whatever arrives later and in whatever order.
\<close>

lemma lengths_agree_update:
  assumes "lengths_agree ci" and "i < length (datasets ci)"
    and "data d = data (datasets ci ! i)"
  shows "lengths_agree (ci\<lparr>datasets := (datasets ci)[i := d]\<rparr>)"
  using assms by (auto simp: lengths_agree_def list_all_length nth_list_update)

lemma histogramTime_then_lengths:
  assumes ci: "histogram s = Some ci" and cl: "cl < length (closures s)"
    and L: "closures s ! cl = labels ci"
    and agree: "lengths_agree ci" and empty: "labels ci = [] \<longrightarrow> datasets ci = []"
    and ok: "labels ci \<noteq> [] \<or> r \<noteq> []"
  shows "\<exists>ci'. histogram (histogramTime_then cl k r s) = Some ci' \<and> lengths_agree ci'
     \<and> labels ci' \<noteq> []"
proof (cases "labels ci = []")
  case True
  with ok empty have r: "r \<noteq> []" and d: "datasets ci = []"
    by simp_all
  from True L have "closures s ! cl = []"
    by simp
  with histogramTime_then_merged(1) [OF ci cl, of r k] r d show ?thesis
    by (simp add: lengths_agree_def)
next
  case False
  with L have ne: "closures s ! cl \<noteq> []"
    by simp
  show ?thesis
  proof (cases "length r = length (closures s ! cl)")
    case True
    with histogramTime_then_merged(1) [OF ci cl, of r k] ne agree L False show ?thesis
      by (simp add: lengths_agree_def)
  next
    case neq: False
    from histogramTime_then_skipped(1) [OF ci cl ne neq, of k] agree False show ?thesis
      by simp
  qed
qed

lemma step_lengths_inv:
  assumes inv: "lengths_inv cl s" and st: "step gi e s = Some s'" and c: "in_cycle e"
    and ok: "(\<exists>ci. histogram s = Some ci \<and> labels ci \<noteq> []) \<or> first_has_points [e]"
  shows "lengths_inv cl s'"
proof -
  from inv obtain ci where ci: "histogram s = Some ci" and cyc: "cycle_inv cl (labels ci) s"
    and agree: "lengths_agree ci" and empty: "labels ci = [] \<longrightarrow> datasets ci = []"
    by (auto simp: lengths_inv_def)
  from step_cycle_inv [OF cyc st c]
  obtain L' where cyc': "cycle_inv cl L' s'"
    by blast
  then obtain ci' where ci': "histogram s' = Some ci'" and L': "labels ci' = L'"
    by (auto simp: cycle_inv_def)
  have "lengths_agree ci' \<and> (labels ci' = [] \<longrightarrow> datasets ci' = [])"
  proof (cases e)
    case (HistogramTimeSettled i res)
    with st have mem: "i \<in> set (pending s)" "i < length (issued s)"
      by (auto split: if_splits)
    with cyc obtain c k where ik: "issued s ! i = (c, OnHistogramTime cl k)"
      by (auto simp: cycle_inv_def)
    with st HistogramTimeSettled mem
    have s': "s' = histogramTime_settled cl k res (s\<lparr>pending := remove1 i (pending s)\<rparr>)"
      by (auto split: api_call.splits)
    let ?s0 = "s\<lparr>pending := remove1 i (pending s)\<rparr>"
    show ?thesis
    proof (cases res)
      case (Fulfilled r)
      from ok ci HistogramTimeSettled Fulfilled have okr: "labels ci \<noteq> [] \<or> r \<noteq> []"
        by auto
      from cyc have "histogram ?s0 = Some ci" "cl < length (closures ?s0)"
        "closures ?s0 ! cl = labels ci"
        using ci by (simp_all add: cycle_inv_def)
      from histogramTime_then_lengths [OF this agree empty okr, of k] ci' show ?thesis
        by (auto simp: s' Fulfilled histogramTime_settled_def setLoading_fields)
    next
      case (Rejected err)
      with ci ci' agree empty show ?thesis
        by (auto simp: s' histogramTime_settled_def setLoading_def)
    qed
  next
    case (LegendClick i)
    with st have click: "legend_onClick i s = Some s'"
      by simp
    with ci have i: "i < length (datasets ci)"
      and "ci' = hide ci i \<or> ci' = show_dataset ci i"
      using ci' by (auto simp: legend_onClick_def Let_def split: if_splits)
    then have "lengths_agree ci'" and "labels ci' = labels ci"
      using lengths_agree_update [OF agree i]
      by (auto simp: hide_def show_dataset_def lengths_agree_def)
    with i empty show ?thesis
      by auto
  qed (use c in simp_all)
  with ci' cyc' L' show ?thesis
    by (auto simp: lengths_inv_def)
qed


lemma first_has_points_hd:
  assumes "first_has_points (e # es)"
  shows "first_has_points [e]"
proof (cases e)
  case (HistogramTimeSettled i res)
  with assms show ?thesis by (cases res) auto
qed auto

lemma run_lengths_inv:
  assumes "lengths_inv cl s" and "run gi hs s = Some s'" and "\<forall>e\<in>set hs. in_cycle e"
    and "(\<exists>ci. histogram s = Some ci \<and> labels ci \<noteq> []) \<or> first_has_points hs"
  shows "lengths_inv cl s'"
  using assms
proof (induction hs arbitrary: s)
  case Nil
  then show ?case by simp
next
  case (Cons e hs)
  from Cons.prems(2) obtain s1 where e: "step gi e s = Some s1" and hs: "run gi hs s1 = Some s'"
    by (auto split: option.splits)
  from Cons.prems(3) have ce: "in_cycle e" and chs: "\<forall>e\<in>set hs. in_cycle e"
    by simp_all
  from Cons.prems(1) obtain ci where ci: "histogram s = Some ci"
    and cyc: "cycle_inv cl (labels ci) s"
    by (auto simp: lengths_inv_def)
  from Cons.prems(4) have ok: "(\<exists>ci. histogram s = Some ci \<and> labels ci \<noteq> []) \<or> first_has_points [e]"
    by (auto dest: first_has_points_hd)
  have inv1: "lengths_inv cl s1"
    by (rule step_lengths_inv [OF Cons.prems(1) e ce ok])
  from step_cycle_inv [OF cyc e ce]
  have "\<exists>ci1. histogram s1 = Some ci1 \<and>
      labels ci1 = (if labels ci \<noteq> [] then labels ci else first_times (responses [e]))"
    by (auto simp: cycle_inv_def)
  then obtain ci1 where ci1: "histogram s1 = Some ci1"
    and l1: "labels ci1 = (if labels ci \<noteq> [] then labels ci else first_times (responses [e]))"
    by blast
  have "(\<exists>ci. histogram s1 = Some ci \<and> labels ci \<noteq> []) \<or> first_has_points hs"
  proof (cases "labels ci \<noteq> []")
    case True
    with ci1 l1 show ?thesis by simp
  next
    case False
    with Cons.prems(4) ci have f: "first_has_points (e # hs)"
      by simp
    show ?thesis
    proof (cases e)
      case (HistogramTimeSettled i res)
      show ?thesis
      proof (cases res)
        case (Fulfilled r)
        with f HistogramTimeSettled have "r \<noteq> []"
          by simp
        with ci1 l1 False HistogramTimeSettled Fulfilled show ?thesis
          by simp
      next
        case (Rejected err)
        with f HistogramTimeSettled show ?thesis
          by simp
      qed
    qed (use f in simp_all)
  qed
  from Cons.IH [OF inv1 hs chs this] show ?case .
qed

lemma lengths_agree_when_first_has_points:
  assumes quiet: "pending s0 = []"
    and cycle: "run gi (Refresh # GroupBySettled d (Fulfilled rows) # hs) s0 = Some s"
    and only: "\<forall>e\<in>set hs. in_cycle e"
    and first: "first_has_points hs"
  shows "\<exists>ci. histogram s = Some ci \<and> lengths_agree ci"
proof -
  from cycle obtain s2
    where d: "step gi (GroupBySettled d (Fulfilled rows)) (refresh gi s0) = Some s2"
      and hs: "run gi hs s2 = Some s"
    by (auto split: option.splits)
  from d have "histogram s2 = Some \<lparr>labels = [], datasets = []\<rparr>"
    by (auto simp: groupBy_settled_fields refresh_fields
        split: if_splits prod.splits api_call.splits continuation.splits)
  with cycle_inv_after_discovery [OF quiet d] have "lengths_inv (length (closures s0)) s2"
    by (simp add: lengths_inv_def lengths_agree_def)
  from run_lengths_inv [OF this hs only] first show ?thesis
    by (auto simp: lengths_inv_def)
qed

text \<open>
  Claim C3. The claim fails on the code. The response for \<^verbatim>\<open>http\<close> arrives first and has
  no point: it is merged while the labels are empty. The response for \<^verbatim>\<open>flow\<close> then sets
  three labels, and the one for \<^verbatim>\<open>tls\<close>, with two points, is skipped and reported. At the
  end the series \<^verbatim>\<open>http\<close> has no value and the chart has three labels.
\<close>

theorem empty_series_kept_beside_labels:
  "map_option (\<lambda>s. (histogram s, console s))
     (run demo_getInterval
        [Refresh,
         GroupBySettled 0
           (Fulfilled [\<lparr>key = ''flow'', row_count = 9\<rparr>, \<lparr>key = ''http'', row_count = 4\<rparr>,
                       \<lparr>key = ''tls'', row_count = 2\<rparr>]),
         HistogramTimeSettled 2 (Fulfilled []),
         HistogramTimeSettled 1
           (Fulfilled [\<lparr>time = 10, count = 1\<rparr>, \<lparr>time = 20, count = 2\<rparr>, \<lparr>time = 30, count = 3\<rparr>]),
         HistogramTimeSettled 3 (Fulfilled [\<lparr>time = 10, count = 6\<rparr>, \<lparr>time = 20, count = 8\<rparr>])]
        (init ''1h''))
   = Some
       (Some \<lparr>labels = [10, 20, 30],
              datasets =
                [\<lparr>data = [], label = ''http'', pointRadius = 0, hidden = Undefined,
                  meta_hidden = None\<rparr>,
                 \<lparr>data = [1, 2, 3], label = ''flow'', pointRadius = 0, hidden = Undefined,
                  meta_hidden = None\<rparr>]\<rparr>,
        [''ERROR: Label and data mismatch''])"
  by (simp add: evaluate)

section \<open>The registry across cycles\<close>











end
